theory Spec2Isabelle
  imports Complex_Main
begin

section \<open>Effects, as far as src/index.ts uses them\<close>

text \<open>
  The source is written against the \<open>effect\<close> library. An \<open>Effect<A, E>\<close> is a description
  of a computation that, each time it is run, reads and changes the outside world and ends
  in a success with an \<open>A\<close>, in a failure with an \<open>E\<close> (an expected error), or in a defect
  (an unexpected error, for instance an exception thrown while it runs). The model is
  explicit state passing over a world \<open>'w\<close>; the failure and the defect are the two
  constructors of \<open>cause\<close>, the error side of the result.

  Effects that do not return are outside the model: every effect is a total function.
\<close>

datatype 'e cause = Fail 'e | Die 'e

type_synonym ('w, 'e, 'a) effect = "'w \<Rightarrow> ('e cause + 'a) \<times> 'w"

text \<open>
  \<open>Effect.retry(self, { times: n })\<close>: \<open>self\<close> is run; when it fails it is run again, up to
  \<open>n\<close> more times (\<open>times\<close> counts the retries that follow the first run), and the failure
  of the last run is the failure of the whole. Only failures are retried: a defect ends
  the retry at once.
\<close>

fun retry :: "nat \<Rightarrow> ('w, 'e, 'a) effect \<Rightarrow> ('w, 'e, 'a) effect" where
  "retry 0 self w = self w"
| "retry (Suc n) self w =
     (case self w of
        (Inr a, w') \<Rightarrow> (Inr a, w')
      | (Inl (Die d), w') \<Rightarrow> (Inl (Die d), w')
      | (Inl (Fail e), w') \<Rightarrow> retry n self w')"

text \<open>
  To count and to observe the runs of an effect, \<open>traced\<close> wraps it so that every run
  appends its own result to a list kept beside the world. The wrapper changes neither
  the result nor the world of the retry (\<open>retry_traced_gen\<close> below). A run has \<open>failed\<close>
  when it ended in a failure, the one result that is retried.
\<close>

definition traced :: "('w, 'e, 'a) effect \<Rightarrow> (('e cause + 'a) list \<times> 'w, 'e, 'a) effect" where
  "traced self = (\<lambda>(tr, w). case self w of (r, w') \<Rightarrow> (r, (tr @ [r], w')))"

definition failed :: "'e cause + 'a \<Rightarrow> bool" where
  "failed r = (case r of Inl (Fail e) \<Rightarrow> True | Inl (Die d) \<Rightarrow> False | Inr a \<Rightarrow> False)"

section \<open>JavaScript numbers\<close>

text \<open>
  A JavaScript \<open>number\<close> is an IEEE 754 double: a finite value, which is a rational number
  (\<open>Finite 0\<close> is \<open>+0\<close>), the negative zero, an infinity or \<open>NaN\<close>. The type is wider than the
  doubles, since \<open>Finite\<close> takes any rational; the arithmetic below returns doubles only.
\<close>

datatype number = Finite rat | NegZero | PosInf | NegInf | NaN

text \<open>
  Rounding to the nearest double, ties to the even significand. \<open>ilog2 n\<close> is the position
  of the leading bit of \<open>n\<close>, \<open>floorLog2 a\<close> the binary exponent of a positive rational, and
  \<open>ulp a\<close> the distance between neighbouring doubles at the magnitude \<open>a\<close>: 52 bits below
  the exponent, which is not taken below \<open>-1022\<close> (the subnormal range). A magnitude that
  rounds to \<open>2^1024\<close> or more becomes an infinity; one that rounds to zero keeps its sign.
\<close>

function ilog2 :: "int \<Rightarrow> int" where
  "ilog2 n = (if n < 2 then 0 else 1 + ilog2 (n div 2))"
  by pat_completeness auto
termination
  by (relation "measure nat") auto

declare ilog2.simps [simp del]

definition pow2 :: "int \<Rightarrow> rat" where
  "pow2 e = (if 0 \<le> e then 2 ^ nat e else 1 / 2 ^ nat (- e))"

definition floorLog2 :: "rat \<Rightarrow> int" where
  "floorLog2 a =
     (if 1 \<le> a then ilog2 \<lfloor>a\<rfloor>
      else - (1 + ilog2 (\<lceil>1 / a\<rceil> - 1)))"

definition ulp :: "rat \<Rightarrow> rat" where
  "ulp a = pow2 (max (floorLog2 a) (- 1022) - 52)"

definition nearestEven :: "rat \<Rightarrow> int" where
  "nearestEven n =
     (let f = \<lfloor>n\<rfloor>; r = n - of_int f
      in if 1 / 2 < r \<or> (r = 1 / 2 \<and> odd f) then f + 1 else f)"

definition roundDouble :: "rat \<Rightarrow> number" where
  "roundDouble q =
     (if q = 0 then Finite 0
      else
        let k = nearestEven (\<bar>q\<bar> / ulp \<bar>q\<bar>);
            v = of_int k * ulp \<bar>q\<bar>
        in if 2 ^ 1024 \<le> v then (if 0 < q then PosInf else NegInf)
           else if k = 0 then (if 0 < q then Finite 0 else NegZero)
           else if 0 < q then Finite v else Finite (- v))"

text \<open>
  The operators that the handler uses: \<open>a + b\<close> is \<open>addNum\<close>, \<open>a - b\<close> is \<open>subNum\<close> (the sum
  with the negated operand, as IEEE 754 has it) and \<open>a < b\<close> is \<open>ltNum\<close>, false whenever an
  operand is \<open>NaN\<close>. The exact sum of two finite doubles is rounded once.
\<close>

fun negNum :: "number \<Rightarrow> number" where
  "negNum (Finite q) = (if q = 0 then NegZero else Finite (- q))"
| "negNum NegZero = Finite 0"
| "negNum PosInf = NegInf"
| "negNum NegInf = PosInf"
| "negNum NaN = NaN"

fun addNum :: "number \<Rightarrow> number \<Rightarrow> number" where
  "addNum NaN y = NaN"
| "addNum x NaN = NaN"
| "addNum PosInf NegInf = NaN"
| "addNum NegInf PosInf = NaN"
| "addNum PosInf y = PosInf"
| "addNum x PosInf = PosInf"
| "addNum NegInf y = NegInf"
| "addNum x NegInf = NegInf"
| "addNum NegZero NegZero = NegZero"
| "addNum NegZero (Finite b) = Finite b"
| "addNum (Finite a) NegZero = Finite a"
| "addNum (Finite a) (Finite b) = roundDouble (a + b)"

definition subNum :: "number \<Rightarrow> number \<Rightarrow> number" where
  "subNum x y = addNum x (negNum y)"

text \<open>
  \<open>isFinite\<close> is \<open>Number.isFinite\<close>, and \<open>quantity\<close> the real value of a finite number (both
  zeros are 0); it is read only where \<open>isFinite\<close> holds.
\<close>

fun isFinite :: "number \<Rightarrow> bool" where
  "isFinite (Finite q) = True"
| "isFinite NegZero = True"
| "isFinite PosInf = False"
| "isFinite NegInf = False"
| "isFinite NaN = False"

fun quantity :: "number \<Rightarrow> rat" where
  "quantity (Finite q) = q"
| "quantity NegZero = 0"
| "quantity PosInf = 0"
| "quantity NegInf = 0"
| "quantity NaN = 0"

fun nonNegative :: "number \<Rightarrow> bool" where
  "nonNegative (Finite q) = (0 \<le> q)"
| "nonNegative NegZero = True"
| "nonNegative PosInf = True"
| "nonNegative NegInf = False"
| "nonNegative NaN = False"

fun ltNum :: "number \<Rightarrow> number \<Rightarrow> bool" where
  "ltNum NaN y = False"
| "ltNum x NaN = False"
| "ltNum PosInf y = False"
| "ltNum x NegInf = False"
| "ltNum NegInf y = True"
| "ltNum x PosInf = True"
| "ltNum x y = (quantity x < quantity y)"

section \<open>The bank account handler\<close>

text \<open>
  The balance and the amounts are \<open>number\<close>s. The timestamp is what \<open>Date.now()\<close> returns,
  a whole number of milliseconds that is stored and never computed with.
\<close>

record Transaction =
  type :: string
  amount :: number
  timestamp :: int

record BankAccount =
  balance :: number
  transactions :: "Transaction list"

datatype BankMessage =
    Deposit number
  | Withdraw number
  | Transfer string number

text \<open>
  Calling a handler is a JavaScript call: it returns an effect, or it throws before there
  is an effect at all.
\<close>

datatype ('w, 'e, 's) handled = Throws 'e | Returns (run: "('w, 'e, 's) effect")

text \<open>
  \<open>bankAccountHandler\<close> (lines 52-118). \<open>Date.now()\<close> is read inside the effect, once per
  run; it is the parameter \<open>dateNow\<close>, any reading of the world's clock. The handler's
  \<open>Console.log\<close> lines only print and are left out. The effect is an
  \<open>Effect.Effect<BankAccount>\<close>: its error type is \<open>never\<close>, a type of which the
  model names no value.
\<close>

typedecl never

definition bankAccountHandler ::
  "('w \<Rightarrow> int \<times> 'w) \<Rightarrow> BankAccount \<Rightarrow> BankMessage \<Rightarrow> ('w, never, BankAccount) handled" where
  "bankAccountHandler dateNow state message = Returns (\<lambda>w.
     case dateNow w of (now, w') \<Rightarrow>
       (case message of
          Deposit m_amount \<Rightarrow>
            (let newDepositBalance = addNum (balance state) m_amount
             in (Inr \<lparr>balance = newDepositBalance,
                      transactions = transactions state @
                        [\<lparr>type = ''deposit'', amount = m_amount, timestamp = now\<rparr>]\<rparr>, w'))
        | Withdraw m_amount \<Rightarrow>
            (if ltNum (balance state) m_amount then (Inr state, w')
             else
               (let newWithdrawBalance = subNum (balance state) m_amount
                in (Inr \<lparr>balance = newWithdrawBalance,
                         transactions = transactions state @
                           [\<lparr>type = ''withdraw'', amount = m_amount, timestamp = now\<rparr>]\<rparr>, w')))
        | Transfer m_to m_amount \<Rightarrow>
            (if ltNum (balance state) m_amount then (Inr state, w')
             else
               (let newTransferBalance = subNum (balance state) m_amount
                in (Inr \<lparr>balance = newTransferBalance,
                         transactions = transactions state @
                           [\<lparr>type = ''transfer'', amount = m_amount, timestamp = now\<rparr>]\<rparr>, w')))))"

section \<open>The supervised actor\<close>

datatype 'm ActorMessage = Message 'm | Stop | Restart

text \<open>
  The fiber forked for \<open>actorLoop\<close> is \<open>Running\<close> (suspended in \<open>Queue.take\<close> while the queue
  is empty), or it is \<open>Done\<close> because the generator returned, or it has \<open>Failed\<close> with the
  cause of an effect that the generator yielded.
\<close>

datatype 'e fiber = Running | Done | Failed "'e cause"

text \<open>The lines that the loop prints, by the \<open>Console.log\<close> that prints them.\<close>

datatype 'e line =
    Started string
  | ShuttingDown string
  | Restarting string
  | Received
  | Error string 'e

text \<open>
  What \<open>createSuperVisor\<close> allocates (lines 338-340) and its loop touches: the unbounded
  queue, the state cell, the fiber held by \<open>fiberRef\<close>, the console and the world of
  the handler's effects. The closure's \<open>name\<close>, \<open>initalState\<close> and \<open>handler\<close> never change
  and are parameters of every function below.
\<close>

record ('s, 'm, 'e, 'w) actor =
  queue :: "'m ActorMessage list"
  stateRef :: 's
  fiberRef :: "'e fiber"
  console :: "'e line list"
  world :: 'w

text \<open>
  \<open>Queue.offer\<close> on an unbounded queue that is never shut down (the source has no
  \<open>Queue.shutdown\<close>) appends and answers \<open>true\<close>.
\<close>

definition offer ::
  "'m ActorMessage \<Rightarrow> ('s, 'm, 'e, 'w) actor \<Rightarrow> bool \<times> ('s, 'm, 'e, 'w) actor" where
  "offer msg a = (True, a\<lparr>queue := queue a @ [msg]\<rparr>)"

definition send :: "'m \<Rightarrow> ('s, 'm, 'e, 'w) actor \<Rightarrow> bool \<times> ('s, 'm, 'e, 'w) actor" where
  "send message = offer (Message message)"

definition stop :: "('s, 'm, 'e, 'w) actor \<Rightarrow> bool \<times> ('s, 'm, 'e, 'w) actor" where
  "stop = offer Stop"

definition restart :: "('s, 'm, 'e, 'w) actor \<Rightarrow> bool \<times> ('s, 'm, 'e, 'w) actor" where
  "restart = offer Restart"

definition getState :: "('s, 'm, 'e, 'w) actor \<Rightarrow> 's" where
  "getState a = stateRef a"

text \<open>
  One pass through the body of \<open>while (true)\<close> (lines 345-365), from \<open>Queue.take\<close> to the
  next \<open>Queue.take\<close> or to the end of the fiber.

  \<^item> \<open>Stop\<close>: \<open>break\<close> leaves the loop and the generator returns.
  \<^item> \<open>Restart\<close>: the cell is set to \<open>initalState\<close>, \<open>continue\<close>.
  \<^item> A message: \<open>handler(currentState, msg.payload)\<close> is called once and the effect it
    returns is given to \<open>Effect.retry\<close> with \<open>{ times: 3 }\<close>. A success is written to the
    cell. A failed effect yielded inside \<open>Effect.gen\<close> is not thrown into the generator:
    the generator is abandoned and the fiber ends with the effect's cause, so
    \<open>Ref.set\<close> is not reached and neither is the \<open>catch\<close> clause of line 366.
  \<^item> The \<open>catch\<close> clause receives what JavaScript throws inside the \<open>try\<close> block, which is
    the call of \<open>handler\<close> throwing; it prints the error, and the generator returns.
    The \<open>try\<close> encloses the \<open>while\<close>, so the loop is left on this path too.
\<close>

definition iteration ::
  "string \<Rightarrow> 's \<Rightarrow> ('s \<Rightarrow> 'm \<Rightarrow> ('w, 'e, 's) handled) \<Rightarrow>
   ('s, 'm, 'e, 'w) actor \<Rightarrow> ('s, 'm, 'e, 'w) actor" where
  "iteration name initalState handler a =
     (case fiberRef a of
        Running \<Rightarrow>
          (case queue a of
             [] \<Rightarrow> a
           | msg # rest \<Rightarrow>
               (case msg of
                  Stop \<Rightarrow>
                    a\<lparr>queue := rest, console := console a @ [ShuttingDown name],
                      fiberRef := Done\<rparr>
                | Restart \<Rightarrow>
                    a\<lparr>queue := rest, console := console a @ [Restarting name],
                      stateRef := initalState\<rparr>
                | Message payload \<Rightarrow>
                    (let currentState = stateRef a in
                     case handler currentState payload of
                       Throws e \<Rightarrow>
                         a\<lparr>queue := rest, console := console a @ [Received, Error name e],
                           fiberRef := Done\<rparr>
                     | Returns eff \<Rightarrow>
                         (case retry 3 eff (world a) of
                            (Inr newState, w') \<Rightarrow>
                              a\<lparr>queue := rest, console := console a @ [Received],
                                world := w', stateRef := newState\<rparr>
                          | (Inl c, w') \<Rightarrow>
                              a\<lparr>queue := rest, console := console a @ [Received],
                                world := w', fiberRef := Failed c\<rparr>))))
      | Done \<Rightarrow> a
      | Failed c \<Rightarrow> a)"

text \<open>
  \<open>createSuperVisor\<close> (lines 332-381): the queue is empty, the cell holds \<open>initalState\<close>, the
  loop is forked and has printed its first line. The handle it returns is the four
  functions \<open>send\<close>, \<open>stop\<close>, \<open>restart\<close> and \<open>getState\<close> above.
  \<open>createSupervisedActor\<close> (lines 120-180) has the same loop.
\<close>

definition createSuperVisor ::
  "string \<Rightarrow> 's \<Rightarrow> ('s \<Rightarrow> 'm \<Rightarrow> ('w, 'e, 's) handled) \<Rightarrow> 'w \<Rightarrow> ('s, 'm, 'e, 'w) actor" where
  "createSuperVisor name initalState handler w =
     \<lparr>queue = [], stateRef = initalState, fiberRef = Running,
      console = [Started name], world = w\<rparr>"

text \<open>
  The loop itself: it runs until it is suspended in \<open>Queue.take\<close> on the empty queue or
  the fiber has ended. Every pass takes one envelope, so it terminates.
\<close>

definition awake :: "('s, 'm, 'e, 'w) actor \<Rightarrow> bool" where
  "awake a = (case fiberRef a of Running \<Rightarrow> queue a \<noteq> [] | Done \<Rightarrow> False | Failed c \<Rightarrow> False)"

function actorLoop ::
  "string \<Rightarrow> 's \<Rightarrow> ('s \<Rightarrow> 'm \<Rightarrow> ('w, 'e, 's) handled) \<Rightarrow>
   ('s, 'm, 'e, 'w) actor \<Rightarrow> ('s, 'm, 'e, 'w) actor" where
  "actorLoop name initalState handler a =
     (if awake a then actorLoop name initalState handler (iteration name initalState handler a)
      else a)"
  by pat_completeness auto
termination
  by (relation "measure (\<lambda>(name, initalState, handler, a). length (queue a))")
     (auto simp: awake_def iteration_def Let_def
           split: fiber.splits list.splits ActorMessage.splits handled.splits
                  prod.splits sum.splits)

declare actorLoop.simps [simp del]

text \<open>
  The callers and the loop interleave. A schedule is a list whose entries are a call of
  the handle by some caller, or one pass of the loop (\<open>Turn\<close>).
\<close>

datatype 'm call = Send 'm | StopCall | RestartCall | Turn

fun perform ::
  "string \<Rightarrow> 's \<Rightarrow> ('s \<Rightarrow> 'm \<Rightarrow> ('w, 'e, 's) handled) \<Rightarrow>
   'm call \<Rightarrow> ('s, 'm, 'e, 'w) actor \<Rightarrow> ('s, 'm, 'e, 'w) actor" where
  "perform name initalState handler (Send message) a = snd (send message a)"
| "perform name initalState handler StopCall a = snd (stop a)"
| "perform name initalState handler RestartCall a = snd (restart a)"
| "perform name initalState handler Turn a = iteration name initalState handler a"

fun schedule ::
  "string \<Rightarrow> 's \<Rightarrow> ('s \<Rightarrow> 'm \<Rightarrow> ('w, 'e, 's) handled) \<Rightarrow>
   'm call list \<Rightarrow> ('s, 'm, 'e, 'w) actor \<Rightarrow> ('s, 'm, 'e, 'w) actor" where
  "schedule name initalState handler [] a = a"
| "schedule name initalState handler (c # cs) a =
     schedule name initalState handler cs (perform name initalState handler c a)"

text \<open>The envelopes that a schedule offers, in the order of the calls.\<close>

fun offered :: "'m call list \<Rightarrow> 'm ActorMessage list" where
  "offered [] = []"
| "offered (Send message # cs) = Message message # offered cs"
| "offered (StopCall # cs) = Stop # offered cs"
| "offered (RestartCall # cs) = Restart # offered cs"
| "offered (Turn # cs) = offered cs"

text \<open>The fiber has ended: nothing takes from the queue any more.\<close>

definition ended :: "('s, 'm, 'e, 'w) actor \<Rightarrow> bool" where
  "ended a = (case fiberRef a of Running \<Rightarrow> False | Done \<Rightarrow> True | Failed c \<Rightarrow> True)"

text \<open>The messages that a schedule sends, in the order of the calls.\<close>

fun payloads :: "'m call list \<Rightarrow> 'm list" where
  "payloads [] = []"
| "payloads (Send message # cs) = message # payloads cs"
| "payloads (StopCall # cs) = payloads cs"
| "payloads (RestartCall # cs) = payloads cs"
| "payloads (Turn # cs) = payloads cs"

section \<open>The two folds of the final state\<close>

text \<open>
  The fold as the specification words it: the handler is folded from the left over the
  payloads whose invocation, retries included, succeeds; a payload that does not succeed
  is the identity on the state, and the fold goes on with the next payload.
\<close>

fun leftFold ::
  "('s \<Rightarrow> 'm \<Rightarrow> ('w, 'e, 's) handled) \<Rightarrow> 's \<Rightarrow> 'm list \<Rightarrow> 'w \<Rightarrow> 's \<times> 'w" where
  "leftFold handler s [] w = (s, w)"
| "leftFold handler s (m # ms) w =
     (case handler s m of
        Throws e \<Rightarrow> leftFold handler s ms w
      | Returns eff \<Rightarrow>
          (case retry 3 eff w of
             (Inr s', w') \<Rightarrow> leftFold handler s' ms w'
           | (Inl c, w') \<Rightarrow> leftFold handler s ms w'))"

text \<open>
  The fold that stops: the handler is folded over the payloads that precede the first
  one that does not succeed, and no later payload is applied.
\<close>

fun appliedPrefix ::
  "('s \<Rightarrow> 'm \<Rightarrow> ('w, 'e, 's) handled) \<Rightarrow> 's \<Rightarrow> 'm list \<Rightarrow> 'w \<Rightarrow> 's \<times> 'w" where
  "appliedPrefix handler s [] w = (s, w)"
| "appliedPrefix handler s (m # ms) w =
     (case handler s m of
        Throws e \<Rightarrow> (s, w)
      | Returns eff \<Rightarrow>
          (case retry 3 eff w of
             (Inr s', w') \<Rightarrow> appliedPrefix handler s' ms w'
           | (Inl c, w') \<Rightarrow> (s, w')))"

section \<open>Concrete actors\<close>

text \<open>
  A handler over integer states whose effect fails on the message \<open>0\<close>, every time it is
  run, and adds any other message to the state.
\<close>

definition rejectZero :: "int \<Rightarrow> int \<Rightarrow> (unit, string, int) handled" where
  "rejectZero s m =
     Returns (\<lambda>w. if m = 0 then (Inl (Fail ''rejected''), w) else (Inr (s + m), w))"

definition counter :: "(int, int, string, unit) actor" where
  "counter = createSuperVisor ''counter'' 0 rejectZero ()"

text \<open>
  The demo's first account (lines 198-202), and the scenario of the specification as a
  schedule in which the loop takes each envelope before the next call.
\<close>

definition alice :: "('w \<Rightarrow> int \<times> 'w) \<Rightarrow> 'w \<Rightarrow> (BankAccount, BankMessage, never, 'w) actor" where
  "alice dateNow w =
     createSuperVisor ''Alice'' \<lparr>balance = Finite 1000, transactions = []\<rparr>
       (bankAccountHandler dateNow) w"

definition aliceRuns ::
  "('w \<Rightarrow> int \<times> 'w) \<Rightarrow> 'w \<Rightarrow> BankMessage call list \<Rightarrow>
   (BankAccount, BankMessage, never, 'w) actor" where
  "aliceRuns dateNow w cs =
     schedule ''Alice'' \<lparr>balance = Finite 1000, transactions = []\<rparr>
       (bankAccountHandler dateNow) cs (alice dateNow w)"

section \<open>The ledger of an account\<close>

text \<open>
  The sum of the amounts of the recorded transactions of one type, and the ledger: the
  initial balance plus the deposits minus the withdrawals and transfers, in exact
  arithmetic. The ledger holds of a state whose balance and recorded amounts are finite
  and whose balance is the ledger of its transactions.
\<close>

definition recorded :: "string \<Rightarrow> Transaction list \<Rightarrow> rat" where
  "recorded ty txs = sum_list (map (\<lambda>tx. quantity (amount tx)) (filter (\<lambda>tx. type tx = ty) txs))"

definition ledger :: "rat \<Rightarrow> Transaction list \<Rightarrow> rat" where
  "ledger initial txs =
     initial + recorded ''deposit'' txs - (recorded ''withdraw'' txs + recorded ''transfer'' txs)"

definition ledgerHolds :: "rat \<Rightarrow> BankAccount \<Rightarrow> bool" where
  "ledgerHolds initial s =
     (isFinite (balance s) \<and> list_all (\<lambda>tx. isFinite (amount tx)) (transactions s) \<and>
      quantity (balance s) = ledger initial (transactions s))"

text \<open>
  The handler's arithmetic is exact on a message when the message is rejected, or its
  amount is finite and the double that the handler computes is finite and is the real sum
  or difference. Whole numbers whose sum or difference has magnitude up to \<open>2^53\<close> are
  such (\<open>addNum_whole\<close>, \<open>subNum_whole\<close> below).
\<close>

fun exactOn :: "BankAccount \<Rightarrow> BankMessage \<Rightarrow> bool" where
  "exactOn s (Deposit x) =
     (isFinite x \<and> isFinite (addNum (balance s) x) \<and>
      quantity (addNum (balance s) x) = quantity (balance s) + quantity x)"
| "exactOn s (Withdraw x) =
     (ltNum (balance s) x \<or>
      (isFinite x \<and> isFinite (subNum (balance s) x) \<and>
       quantity (subNum (balance s) x) = quantity (balance s) - quantity x))"
| "exactOn s (Transfer to x) =
     (ltNum (balance s) x \<or>
      (isFinite x \<and> isFinite (subNum (balance s) x) \<and>
       quantity (subNum (balance s) x) = quantity (balance s) - quantity x))"

text \<open>A clock for the concrete runs: the world is the time, and reading it advances it.\<close>

definition tick :: "int \<Rightarrow> int \<times> int" where
  "tick w = (w, w + 1)"

section \<open>The retry executor\<close>

lemma retry_traced_gen:
  "retry n (traced self) (tr0, w) = (r, (tr, w')) \<Longrightarrow>
     \<exists>new. tr = tr0 @ new \<and> new \<noteq> [] \<and> length new \<le> n + 1 \<and> last new = r \<and>
           list_all failed (butlast new) \<and> (failed r \<longrightarrow> length new = n + 1) \<and>
           retry n self w = (r, w')"
proof (induction n arbitrary: tr0 w)
  case 0
  then show ?case
    by (auto simp: traced_def split: prod.splits)
next
  case (Suc n)
  obtain r1 w1 where run1: "self w = (r1, w1)"
    by (cases "self w")
  show ?case
  proof (cases "failed r1")
    case False
    with Suc.prems run1 show ?thesis
      by (auto simp: traced_def failed_def split: sum.splits cause.splits)
  next
    case True
    then obtain e where r1: "r1 = Inl (Fail e)"
      by (auto simp: failed_def split: sum.splits cause.splits)
    with Suc.prems run1 have "retry n (traced self) (tr0 @ [r1], w1) = (r, (tr, w'))"
      by (simp add: traced_def)
    from Suc.IH [OF this] obtain new where
      new: "tr = (tr0 @ [r1]) @ new" "new \<noteq> []" "length new \<le> n + 1" "last new = r"
        "list_all failed (butlast new)" "failed r \<longrightarrow> length new = n + 1"
        "retry n self w1 = (r, w')"
      by blast
    have "tr = tr0 @ (r1 # new)" using new(1) by simp
    moreover have "list_all failed (butlast (r1 # new))" using new(2,5) True by simp
    moreover have "retry (Suc n) self w = (r, w')" using run1 r1 new(7) by simp
    ultimately show ?thesis using new(2,3,4,6)
      by (intro exI [of _ "r1 # new"]) simp
  qed
qed

lemma retry_first_success: "self w = (Inr a, w') \<Longrightarrow> retry n self w = (Inr a, w')"
  by (cases n) simp_all

lemma retry_traced_first_success:
  "self w = (Inr a, w') \<Longrightarrow> retry n (traced self) (tr, w) = (Inr a, tr @ [Inr a], w')"
  by (cases n) (simp_all add: traced_def)

section \<open>The loop and its schedules\<close>

lemma ended_not_awake: "ended a \<Longrightarrow> \<not> awake a"
  by (simp add: ended_def awake_def split: fiber.splits)

lemma iteration_asleep: "\<not> awake a \<Longrightarrow> iteration name init handler a = a"
  by (simp add: awake_def iteration_def split: fiber.splits list.splits)

lemma iteration_ended: "ended a \<Longrightarrow> iteration name init handler a = a"
  by (simp add: ended_not_awake iteration_asleep)

lemma perform_ended:
  "ended a \<Longrightarrow> perform name init handler c a = a\<lparr>queue := queue a @ offered [c]\<rparr>"
  by (cases c) (simp_all add: iteration_ended send_def stop_def restart_def offer_def)

lemma schedule_ended:
  "ended a \<Longrightarrow> schedule name init handler cs a = a\<lparr>queue := queue a @ offered cs\<rparr>"
proof (induction cs arbitrary: a)
  case Nil
  then show ?case by simp
next
  case (Cons c cs)
  have "ended (a\<lparr>queue := queue a @ offered [c]\<rparr>)"
    using Cons.prems by (simp add: ended_def)
  from Cons.IH [OF this]
  have "schedule name init handler cs (a\<lparr>queue := queue a @ offered [c]\<rparr>) =
        a\<lparr>queue := queue a @ offered (c # cs)\<rparr>"
    by (cases c) simp_all
  then show ?case
    using Cons.prems by (simp only: schedule.simps perform_ended)
qed

lemma schedule_append:
  "schedule name init handler (cs @ ds) a =
   schedule name init handler ds (schedule name init handler cs a)"
  by (induction cs arbitrary: a) simp_all

lemma iteration_append:
  "awake a \<Longrightarrow>
   iteration name init handler (a\<lparr>queue := queue a @ q\<rparr>) =
   (iteration name init handler a)\<lparr>queue := queue (iteration name init handler a) @ q\<rparr>"
  by (auto simp: awake_def iteration_def Let_def
           split: fiber.splits list.splits ActorMessage.splits handled.splits
                  prod.splits sum.splits)

lemma awake_append: "awake a \<Longrightarrow> awake (a\<lparr>queue := queue a @ q\<rparr>)"
  by (simp add: awake_def split: fiber.splits)

lemma actorLoop_awake:
  "awake a \<Longrightarrow>
   actorLoop name init handler a = actorLoop name init handler (iteration name init handler a)"
  by (subst actorLoop.simps) simp

lemma actorLoop_asleep_id: "\<not> awake a \<Longrightarrow> actorLoop name init handler a = a"
  by (subst actorLoop.simps) simp

lemma actorLoop_iteration:
  "actorLoop name init handler (iteration name init handler a) = actorLoop name init handler a"
  by (cases "awake a") (simp_all add: iteration_asleep actorLoop_awake [symmetric])

lemma actorLoop_asleep: "\<not> awake (actorLoop name init handler a)"
proof (induction name init handler a rule: actorLoop.induct)
  case (1 name init handler a)
  then show ?case
    by (cases "awake a") (simp_all add: actorLoop_awake actorLoop_asleep_id)
qed

lemma asleep_running_empty: "\<not> awake a \<Longrightarrow> fiberRef a = Running \<Longrightarrow> queue a = []"
  by (simp add: awake_def)

lemma actorLoop_append:
  "actorLoop name init handler (a\<lparr>queue := queue a @ q\<rparr>) =
   actorLoop name init handler
     ((actorLoop name init handler a)\<lparr>queue := queue (actorLoop name init handler a) @ q\<rparr>)"
proof (induction name init handler a rule: actorLoop.induct)
  case (1 name init handler a)
  show ?case
  proof (cases "awake a")
    case True
    have "actorLoop name init handler (a\<lparr>queue := queue a @ q\<rparr>) =
          actorLoop name init handler (iteration name init handler (a\<lparr>queue := queue a @ q\<rparr>))"
      by (simp only: actorLoop_iteration)
    also have "\<dots> = actorLoop name init handler
          ((iteration name init handler a)\<lparr>queue := queue (iteration name init handler a) @ q\<rparr>)"
      using True by (simp only: iteration_append)
    also have "\<dots> = actorLoop name init handler
          ((actorLoop name init handler (iteration name init handler a))
             \<lparr>queue := queue (actorLoop name init handler (iteration name init handler a)) @ q\<rparr>)"
      using "1.IH" [OF True] .
    finally show ?thesis
      by (simp only: actorLoop_iteration)
  next
    case False
    then have "actorLoop name init handler a = a"
      by (rule actorLoop_asleep_id)
    then show ?thesis
      by simp
  qed
qed

lemma actorLoop_perform:
  "actorLoop name init handler (perform name init handler c a) =
   actorLoop name init handler (a\<lparr>queue := queue a @ offered [c]\<rparr>)"
  by (cases c) (simp_all add: send_def stop_def restart_def offer_def actorLoop_iteration)

lemma actorLoop_schedule:
  "actorLoop name init handler (schedule name init handler cs a) =
   actorLoop name init handler (a\<lparr>queue := queue a @ offered cs\<rparr>)"
proof (induction cs arbitrary: a)
  case Nil
  then show ?case by simp
next
  case (Cons c cs)
  let ?L = "actorLoop name init handler"
  let ?p = "perform name init handler c a"
  have "?L (schedule name init handler (c # cs) a) = ?L (?p\<lparr>queue := queue ?p @ offered cs\<rparr>)"
    using Cons.IH by simp
  also have "\<dots> = ?L ((?L ?p)\<lparr>queue := queue (?L ?p) @ offered cs\<rparr>)"
    by (rule actorLoop_append)
  also have "?L ?p = ?L (a\<lparr>queue := queue a @ offered [c]\<rparr>)"
    by (rule actorLoop_perform)
  also have "?L ((?L (a\<lparr>queue := queue a @ offered [c]\<rparr>))
                  \<lparr>queue := queue (?L (a\<lparr>queue := queue a @ offered [c]\<rparr>)) @ offered cs\<rparr>) =
             ?L ((a\<lparr>queue := queue a @ offered [c]\<rparr>)
                  \<lparr>queue := queue (a\<lparr>queue := queue a @ offered [c]\<rparr>) @ offered cs\<rparr>)"
    by (rule actorLoop_append [symmetric])
  also have "(a\<lparr>queue := queue a @ offered [c]\<rparr>)
                  \<lparr>queue := queue (a\<lparr>queue := queue a @ offered [c]\<rparr>) @ offered cs\<rparr> =
             a\<lparr>queue := queue a @ offered (c # cs)\<rparr>"
    by (cases c) simp_all
  finally show ?case .
qed

lemma iteration_failed:
  assumes "fiberRef a = Running" and "queue a = Message m # rest"
    and "handler (stateRef a) m = Returns eff"
    and "retry 3 eff (world a) = (Inl c, w')"
  shows "iteration name init handler a =
         a\<lparr>queue := rest, console := console a @ [Received], world := w', fiberRef := Failed c\<rparr>"
  using assms by (simp add: iteration_def)

lemma iteration_succeeded:
  assumes "fiberRef a = Running" and "queue a = Message m # rest"
    and "handler (stateRef a) m = Returns eff"
    and "retry 3 eff (world a) = (Inr s', w')"
  shows "iteration name init handler a =
         a\<lparr>queue := rest, console := console a @ [Received], world := w', stateRef := s'\<rparr>"
  using assms by (simp add: iteration_def)

lemma iteration_thrown:
  assumes "fiberRef a = Running" and "queue a = Message m # rest"
    and "handler (stateRef a) m = Throws e"
  shows "iteration name init handler a =
         a\<lparr>queue := rest, console := console a @ [Received, Error name e], fiberRef := Done\<rparr>"
  using assms by (simp add: iteration_def)

lemma iteration_stop:
  assumes "fiberRef a = Running" and "queue a = Stop # rest"
  shows "iteration name init handler a =
         a\<lparr>queue := rest, console := console a @ [ShuttingDown name], fiberRef := Done\<rparr>"
  using assms by (simp add: iteration_def)

lemma iteration_restart:
  assumes "fiberRef a = Running" and "queue a = Restart # rest"
  shows "iteration name init handler a =
         a\<lparr>queue := rest, console := console a @ [Restarting name], stateRef := init\<rparr>"
  using assms by (simp add: iteration_def)

lemma actorLoop_ended: "ended a \<Longrightarrow> actorLoop name init handler a = a"
  by (simp add: actorLoop_asleep_id ended_not_awake)

lemma offered_sends: "StopCall \<notin> set cs \<Longrightarrow> RestartCall \<notin> set cs \<Longrightarrow> offered cs = map Message (payloads cs)"
  by (induction cs rule: offered.induct) simp_all

lemma actorLoop_messages:
  "fiberRef a = Running \<Longrightarrow> queue a = map Message ms \<Longrightarrow>
   stateRef (actorLoop name init handler a) = fst (appliedPrefix handler (stateRef a) ms (world a))"
proof (induction ms arbitrary: a)
  case Nil
  then have "\<not> awake a"
    by (simp add: awake_def)
  then show ?case
    by (simp add: actorLoop_asleep_id)
next
  case (Cons m ms)
  let ?b = "iteration name init handler a"
  have q: "queue a = Message m # map Message ms"
    using Cons.prems by simp
  have "awake a"
    using Cons.prems by (simp add: awake_def)
  then have loop: "actorLoop name init handler a = actorLoop name init handler ?b"
    by (rule actorLoop_awake)
  show ?case
  proof (cases "handler (stateRef a) m")
    case (Throws e)
    have b: "?b = a\<lparr>queue := map Message ms, console := console a @ [Received, Error name e],
                    fiberRef := Done\<rparr>"
      using Cons.prems(1) q Throws by (rule iteration_thrown)
    then have "ended ?b"
      by (simp add: ended_def)
    then have "actorLoop name init handler ?b = ?b"
      by (rule actorLoop_ended)
    then show ?thesis
      using Throws by (simp add: loop b)
  next
    case (Returns eff)
    obtain r w' where r: "retry 3 eff (world a) = (r, w')"
      by (cases "retry 3 eff (world a)")
    show ?thesis
    proof (cases r)
      case (Inl c)
      have b: "?b = a\<lparr>queue := map Message ms, console := console a @ [Received], world := w',
                      fiberRef := Failed c\<rparr>"
        using Cons.prems(1) q Returns r [unfolded Inl] by (rule iteration_failed)
      then have "ended ?b"
        by (simp add: ended_def)
      then have "actorLoop name init handler ?b = ?b"
        by (rule actorLoop_ended)
      then show ?thesis
        using Returns r Inl by (simp add: loop b)
    next
      case (Inr s')
      have b: "?b = a\<lparr>queue := map Message ms, console := console a @ [Received], world := w',
                      stateRef := s'\<rparr>"
        using Cons.prems(1) q Returns r [unfolded Inr] by (rule iteration_succeeded)
      have "fiberRef ?b = Running" and "queue ?b = map Message ms"
        using Cons.prems(1) by (simp_all add: b)
      from Cons.IH [OF this]
      have "stateRef (actorLoop name init handler ?b) = fst (appliedPrefix handler s' ms w')"
        by (simp add: b)
      then show ?thesis
        using Returns r Inr by (simp add: loop)
    qed
  qed
qed

lemma actorLoop_messages_survived:
  "fiberRef a = Running \<Longrightarrow> queue a = map Message ms \<Longrightarrow>
   fiberRef (actorLoop name init handler a) = Running \<Longrightarrow>
   stateRef (actorLoop name init handler a) = fst (leftFold handler (stateRef a) ms (world a))"
proof (induction ms arbitrary: a)
  case Nil
  then have "\<not> awake a"
    by (simp add: awake_def)
  then show ?case
    by (simp add: actorLoop_asleep_id)
next
  case (Cons m ms)
  let ?b = "iteration name init handler a"
  have q: "queue a = Message m # map Message ms"
    using Cons.prems by simp
  have "awake a"
    using Cons.prems by (simp add: awake_def)
  then have loop: "actorLoop name init handler a = actorLoop name init handler ?b"
    by (rule actorLoop_awake)
  show ?case
  proof (cases "handler (stateRef a) m")
    case (Throws e)
    have b: "?b = a\<lparr>queue := map Message ms, console := console a @ [Received, Error name e],
                    fiberRef := Done\<rparr>"
      using Cons.prems(1) q Throws by (rule iteration_thrown)
    then have "ended ?b"
      by (simp add: ended_def)
    then have "actorLoop name init handler ?b = ?b"
      by (rule actorLoop_ended)
    then have "fiberRef (actorLoop name init handler a) = Done"
      by (simp add: loop b)
    then show ?thesis
      using Cons.prems(3) by simp
  next
    case (Returns eff)
    obtain r w' where r: "retry 3 eff (world a) = (r, w')"
      by (cases "retry 3 eff (world a)")
    show ?thesis
    proof (cases r)
      case (Inl c)
      have b: "?b = a\<lparr>queue := map Message ms, console := console a @ [Received], world := w',
                      fiberRef := Failed c\<rparr>"
        using Cons.prems(1) q Returns r [unfolded Inl] by (rule iteration_failed)
      then have "ended ?b"
        by (simp add: ended_def)
      then have "actorLoop name init handler ?b = ?b"
        by (rule actorLoop_ended)
      then have "fiberRef (actorLoop name init handler a) = Failed c"
        by (simp add: loop b)
      then show ?thesis
        using Cons.prems(3) by simp
    next
      case (Inr s')
      have b: "?b = a\<lparr>queue := map Message ms, console := console a @ [Received], world := w',
                      stateRef := s'\<rparr>"
        using Cons.prems(1) q Returns r [unfolded Inr] by (rule iteration_succeeded)
      have "fiberRef ?b = Running" and "queue ?b = map Message ms"
        and "fiberRef (actorLoop name init handler ?b) = Running"
        using Cons.prems(1,3) by (simp_all add: b loop)
      from Cons.IH [OF this]
      have "stateRef (actorLoop name init handler ?b) = fst (leftFold handler s' ms w')"
        by (simp add: b)
      then show ?thesis
        using Returns r Inr by (simp add: loop)
    qed
  qed
qed

section \<open>Rounding\<close>

lemma ilog2_bounds:
  "1 \<le> n \<Longrightarrow> 0 \<le> ilog2 n \<and> 2 ^ nat (ilog2 n) \<le> n \<and> n < 2 ^ nat (ilog2 n + 1)"
proof (induction n rule: ilog2.induct)
  case (1 n)
  show ?case
  proof (cases "n < 2")
    case True
    with "1.prems" have "n = 1" by simp
    then show ?thesis by (simp add: ilog2.simps)
  next
    case False
    then have "1 \<le> n div 2" by simp
    from "1.IH" [OF False this] have ih: "0 \<le> ilog2 (n div 2)"
      "2 ^ nat (ilog2 (n div 2)) \<le> n div 2" "n div 2 < 2 ^ nat (ilog2 (n div 2) + 1)"
      by simp_all
    have eq: "ilog2 n = 1 + ilog2 (n div 2)"
      using False by (subst ilog2.simps) simp
    have n1: "nat (1 + ilog2 (n div 2)) = Suc (nat (ilog2 (n div 2)))"
      using ih(1) by simp
    have n2: "nat (ilog2 (n div 2) + 1) = Suc (nat (ilog2 (n div 2)))"
      using ih(1) by simp
    have n3: "nat (1 + ilog2 (n div 2) + 1) = Suc (Suc (nat (ilog2 (n div 2))))"
      using ih(1) by simp
    have "2 * 2 ^ nat (ilog2 (n div 2)) \<le> n"
      using ih(2) by linarith
    moreover have "n < 2 * (2 * 2 ^ nat (ilog2 (n div 2)))"
      using ih(3) unfolding n2 by simp
    ultimately have "0 \<le> 1 + ilog2 (n div 2)"
      and "2 ^ nat (1 + ilog2 (n div 2)) \<le> n"
      and "n < 2 ^ nat (1 + ilog2 (n div 2) + 1)"
      unfolding n1 n3 using ih(1) by simp_all
    then show ?thesis
      unfolding eq by blast
  qed
qed

lemma ilog2_unique:
  assumes "2 ^ m \<le> n" and "n < 2 ^ Suc m"
  shows "ilog2 n = int m"
proof -
  have "1 \<le> n"
    using assms(1) by (smt (verit) one_le_power)
  from ilog2_bounds [OF this] have b: "0 \<le> ilog2 n" "2 ^ nat (ilog2 n) \<le> n"
    "n < 2 ^ nat (ilog2 n + 1)"
    by simp_all
  have two: "(1::int) < 2"
    by simp
  have "(2::int) ^ nat (ilog2 n) < 2 ^ Suc m"
    using b(2) assms(2) by linarith
  then have "nat (ilog2 n) < Suc m"
    by (rule power_less_imp_less_exp [OF two])
  moreover have "(2::int) ^ m < 2 ^ nat (ilog2 n + 1)"
    using b(3) assms(1) by linarith
  then have "m < nat (ilog2 n + 1)"
    by (rule power_less_imp_less_exp [OF two])
  ultimately show ?thesis
    using b(1) by linarith
qed

lemma pow2_pos: "0 < pow2 e"
  by (simp add: pow2_def)

lemma nearestEven_of_int: "nearestEven (of_int m) = m"
  by (simp add: nearestEven_def)

lemma roundDouble_grid:
  assumes "q \<noteq> 0" and "\<bar>q\<bar> = of_int m * ulp \<bar>q\<bar>" and "\<bar>q\<bar> < 2 ^ 1024"
  shows "roundDouble q = Finite q"
proof -
  have u: "0 < ulp \<bar>q\<bar>"
    by (simp add: ulp_def pow2_pos)
  have "\<bar>q\<bar> / ulp \<bar>q\<bar> = of_int m"
    using assms(2) u by (simp add: field_simps)
  then have k: "nearestEven (\<bar>q\<bar> / ulp \<bar>q\<bar>) = m"
    by (simp add: nearestEven_of_int)
  have m: "m \<noteq> 0"
    using assms(1,2) by auto
  have v: "of_int m * ulp \<bar>q\<bar> = \<bar>q\<bar>"
    using assms(2) by simp
  have "\<not> 2 ^ 1024 \<le> \<bar>q\<bar>"
    using assms(3) by simp
  then show ?thesis
    unfolding roundDouble_def Let_def k v using assms(1) m by (simp add: abs_if)
qed

lemma floorLog2_of_int: "1 \<le> m \<Longrightarrow> floorLog2 (of_int m) = ilog2 m"
  by (simp add: floorLog2_def)

lemma roundDouble_whole:
  assumes "\<bar>k\<bar> \<le> 2 ^ 53"
  shows "roundDouble (of_int k) = Finite (of_int k)"
proof (cases "k = 0")
  case True
  then show ?thesis by (simp add: roundDouble_def)
next
  case False
  let ?a = "\<bar>of_int k :: rat\<bar>"
  let ?l = "ilog2 \<bar>k\<bar>"
  have a: "?a = of_int \<bar>k\<bar>" by simp
  have k1: "1 \<le> \<bar>k\<bar>" using False by simp
  then have a1: "1 \<le> ?a" unfolding a by (simp only: of_int_1_le_iff)
  from ilog2_bounds [OF k1] have b: "0 \<le> ?l" "2 ^ nat ?l \<le> \<bar>k\<bar>" by simp_all
  have two: "(1::int) < 2" by simp
  have "(2::int) ^ nat ?l \<le> 2 ^ 53" using b(2) assms by linarith
  then have l53: "nat ?l \<le> 53" by (rule power_le_imp_le_exp [OF two])
  have fl: "floorLog2 ?a = ?l"
    unfolding a using k1 by (rule floorLog2_of_int)
  have ulp: "ulp ?a = pow2 (?l - 52)"
    using b(1) by (simp add: ulp_def fl max_def)
  have small: "?a < 2 ^ 1024"
  proof -
    have "?a \<le> 2 ^ 53" unfolding a using assms by (metis of_int_le_iff of_int_numeral of_int_power)
    also have "(2::rat) ^ 53 < 2 ^ 1024" by (rule power_strict_increasing) simp_all
    finally show ?thesis .
  qed
  have "\<exists>m. ?a = of_int m * ulp ?a"
  proof (cases "?l \<le> 52")
    case True
    have "pow2 (?l - 52) * 2 ^ nat (52 - ?l) = 1"
      using True by (cases "?l = 52") (simp_all add: pow2_def)
    then have "?a = of_int (\<bar>k\<bar> * 2 ^ nat (52 - ?l)) * pow2 (?l - 52)"
      unfolding a by (simp add: mult.assoc mult.commute [of "2 ^ nat (52 - ?l)"])
    then show ?thesis unfolding ulp by blast
  next
    case False
    then have l: "?l = 53" using l53 b(1) by linarith
    then have "2 ^ 53 \<le> \<bar>k\<bar>" using b(2) by simp
    then have "\<bar>k\<bar> = 2 ^ 53" using assms by linarith
    then have "?a = of_int (2 ^ 52) * pow2 (?l - 52)"
      unfolding a l by (simp add: pow2_def)
    then show ?thesis unfolding ulp by blast
  qed
  then obtain m where "?a = of_int m * ulp ?a" ..
  then show ?thesis
    using False small by (intro roundDouble_grid) simp_all
qed

lemma addNum_whole:
  assumes "\<bar>a + b\<bar> \<le> 2 ^ 53"
  shows "addNum (Finite (of_int a)) (Finite (of_int b)) = Finite (of_int (a + b))"
  using roundDouble_whole [OF assms] by simp

lemma subNum_whole:
  assumes "\<bar>a - b\<bar> \<le> 2 ^ 53"
  shows "subNum (Finite (of_int a)) (Finite (of_int b)) = Finite (of_int (a - b))"
  using roundDouble_whole [OF assms] by (simp add: subNum_def)

lemma roundDouble_tie: "roundDouble 9007199254740993 = Finite 9007199254740992"
proof -
  have "ilog2 9007199254740993 = int 53"
    by (rule ilog2_unique) simp_all
  then have "floorLog2 9007199254740993 = 53"
    using floorLog2_of_int [of 9007199254740993] by simp
  then have u: "ulp \<bar>9007199254740993\<bar> = 2"
    by (simp add: ulp_def pow2_def)
  have "\<lfloor>(9007199254740993::rat) / 2\<rfloor> = 4503599627370496"
    by (rule floor_unique) simp_all
  then have k: "nearestEven (\<bar>9007199254740993\<bar> / 2) = 4503599627370496"
    by (simp add: nearestEven_def Let_def)
  show ?thesis
    unfolding roundDouble_def Let_def u k by simp
qed

lemma ltNum_guard: "nonNegative b \<Longrightarrow> ltNum x (Finite 0) \<Longrightarrow> \<not> ltNum b x"
  by (cases b; cases x) auto

section \<open>The handler and the ledger\<close>

lemma bank_returns:
  "bankAccountHandler dateNow state message = Returns (run (bankAccountHandler dateNow state message))"
  by (simp add: bankAccountHandler_def)

lemma bank_run_deposit:
  "run (bankAccountHandler dateNow state (Deposit x)) w =
     (Inr \<lparr>balance = addNum (balance state) x,
           transactions = transactions state @
             [\<lparr>type = ''deposit'', amount = x, timestamp = fst (dateNow w)\<rparr>]\<rparr>,
      snd (dateNow w))"
  by (simp add: bankAccountHandler_def split: prod.splits)

lemma bank_run_withdraw:
  "run (bankAccountHandler dateNow state (Withdraw x)) w =
     (if ltNum (balance state) x then (Inr state, snd (dateNow w))
      else (Inr \<lparr>balance = subNum (balance state) x,
                 transactions = transactions state @
                   [\<lparr>type = ''withdraw'', amount = x, timestamp = fst (dateNow w)\<rparr>]\<rparr>,
            snd (dateNow w)))"
  by (simp add: bankAccountHandler_def split: prod.splits)

lemma bank_run_transfer:
  "run (bankAccountHandler dateNow state (Transfer to x)) w =
     (if ltNum (balance state) x then (Inr state, snd (dateNow w))
      else (Inr \<lparr>balance = subNum (balance state) x,
                 transactions = transactions state @
                   [\<lparr>type = ''transfer'', amount = x, timestamp = fst (dateNow w)\<rparr>]\<rparr>,
            snd (dateNow w)))"
  by (simp add: bankAccountHandler_def split: prod.splits)

lemma bank_run_succeeds:
  "\<exists>s'. run (bankAccountHandler dateNow state message) w = (Inr s', snd (dateNow w))"
  by (cases message) (simp_all add: bank_run_deposit bank_run_withdraw bank_run_transfer)

lemma recorded_append:
  "recorded ty (txs @ [tx]) =
   recorded ty txs + (if type tx = ty then quantity (amount tx) else 0)"
  by (simp add: recorded_def)

lemma ledger_deposit:
  "ledger initial (txs @ [\<lparr>type = ''deposit'', amount = x, timestamp = t\<rparr>]) =
   ledger initial txs + quantity x"
  by (simp add: ledger_def recorded_append)

lemma ledger_withdraw:
  "ledger initial (txs @ [\<lparr>type = ''withdraw'', amount = x, timestamp = t\<rparr>]) =
   ledger initial txs - quantity x"
  by (simp add: ledger_def recorded_append)

lemma ledger_transfer:
  "ledger initial (txs @ [\<lparr>type = ''transfer'', amount = x, timestamp = t\<rparr>]) =
   ledger initial txs - quantity x"
  by (simp add: ledger_def recorded_append)

lemma exactOn_whole:
  assumes "balance s = Finite (of_int b)"
    and "\<bar>b + a\<bar> \<le> 2 ^ 53" and "\<bar>b - a\<bar> \<le> 2 ^ 53"
  shows "exactOn s (Deposit (Finite (of_int a)))"
    and "exactOn s (Withdraw (Finite (of_int a)))"
    and "exactOn s (Transfer to (Finite (of_int a)))"
  using assms by (simp_all add: addNum_whole subNum_whole del: addNum.simps)

section \<open>The claims\<close>

text \<open>
  C1, as amended. When the loop is running and takes a message whose effect ends in failure
  after the retries, the state cell keeps its value and the fiber of the loop ends. From
  then on, under every schedule of calls and loop turns, the fiber stays ended, no
  envelope is taken from the queue (the queue only grows by what is offered), the state
  stays as it is, and running the loop changes nothing.
\<close>

theorem retry_exhausted_ends_loop:
  assumes "fiberRef a = Running" and "queue a = Message m # rest"
    and "handler (stateRef a) m = Returns eff"
    and "retry 3 eff (world a) = (Inl (Fail e), w')"
  shows "getState (iteration name init handler a) = getState a
       \<and> ended (iteration name init handler a)
       \<and> queue (schedule name init handler cs (iteration name init handler a)) = rest @ offered cs
       \<and> getState (schedule name init handler cs (iteration name init handler a)) = getState a
       \<and> ended (schedule name init handler cs (iteration name init handler a))
       \<and> actorLoop name init handler (schedule name init handler cs (iteration name init handler a)) =
           schedule name init handler cs (iteration name init handler a)"
proof -
  let ?b = "iteration name init handler a"
  have b: "?b = a\<lparr>queue := rest, console := console a @ [Received], world := w',
                  fiberRef := Failed (Fail e)\<rparr>"
    using assms by (rule iteration_failed)
  then have e: "ended ?b"
    by (simp add: ended_def)
  have s: "schedule name init handler cs ?b = ?b\<lparr>queue := queue ?b @ offered cs\<rparr>"
    using e by (rule schedule_ended)
  have "ended (schedule name init handler cs ?b)"
    using e by (simp add: s ended_def)
  then have l: "actorLoop name init handler (schedule name init handler cs ?b) =
             schedule name init handler cs ?b"
    by (rule actorLoop_ended)
  have q: "schedule name init handler cs ?b =
           a\<lparr>queue := rest @ offered cs, console := console a @ [Received], world := w',
              fiberRef := Failed (Fail e)\<rparr>"
    by (simp add: s) (simp add: b)
  note l' = l [unfolded q]
  show ?thesis
    unfolding q using l' by (simp add: b getState_def ended_def)
qed

theorem retry_exhausted_ends_loop_witness:
  "fiberRef (schedule ''counter'' 0 rejectZero [Send 7, Turn, Send 0, Send 5] counter) = Running
   \<and> queue (schedule ''counter'' 0 rejectZero [Send 7, Turn, Send 0, Send 5] counter) =
       [Message 0, Message 5]
   \<and> ended (schedule ''counter'' 0 rejectZero [Send 7, Turn, Send 0, Send 5, Turn] counter)
   \<and> getState (schedule ''counter'' 0 rejectZero [Send 7, Turn, Send 0, Send 5, Turn, Turn, Turn]
         counter) = 7
   \<and> queue (schedule ''counter'' 0 rejectZero [Send 7, Turn, Send 0, Send 5, Turn, Turn, Turn]
         counter) = [Message 5]"
proof -
  let ?a = "schedule ''counter'' 0 rejectZero [Send 7, Turn, Send 0, Send 5] counter"
  have a: "?a = \<lparr>queue = [Message 0, Message 5], stateRef = 7, fiberRef = Running,
                  console = [Started ''counter'', Received], world = ()\<rparr>"
    by (simp add: counter_def createSuperVisor_def send_def offer_def iteration_def
          rejectZero_def numeral_3_eq_3)
  have h1: "fiberRef ?a = Running" and h2: "queue ?a = Message 0 # [Message 5]"
    and h3: "rejectZero (stateRef ?a) 0 = Returns (run (rejectZero 7 0))"
    unfolding a by (simp_all add: rejectZero_def)
  have h4: "retry 3 (run (rejectZero 7 0)) (world ?a) = (Inl (Fail ''rejected''), ())"
    unfolding a by (simp add: rejectZero_def numeral_3_eq_3)
  show ?thesis
    using retry_exhausted_ends_loop [where handler = rejectZero and a = ?a and m = 0
        and name = "''counter''" and init = 0 and cs = "[Turn, Turn]", OF h1 h2 h3 h4]
    by (simp add: a getState_def ended_def counter_def createSuperVisor_def send_def offer_def
          iteration_def rejectZero_def numeral_3_eq_3)
qed

text \<open>
  C1 as stated fails: after the message \<open>0\<close>, which \<open>rejectZero\<close> refuses on every attempt,
  the loop does not go on to the message \<open>5\<close>. The fiber has ended, the envelope is left
  in the queue and the state is still \<open>0\<close>, where the message \<open>5\<close> alone gives \<open>5\<close>.
\<close>

theorem retry_exhausted_loop_continues_counterexample:
  "ended (actorLoop ''counter'' 0 rejectZero
            (schedule ''counter'' 0 rejectZero [Send 0, Send 5] counter))
   \<and> queue (actorLoop ''counter'' 0 rejectZero
            (schedule ''counter'' 0 rejectZero [Send 0, Send 5] counter)) = [Message 5]
   \<and> getState (actorLoop ''counter'' 0 rejectZero
            (schedule ''counter'' 0 rejectZero [Send 0, Send 5] counter)) = 0
   \<and> getState (actorLoop ''counter'' 0 rejectZero
            (schedule ''counter'' 0 rejectZero [Send 5] counter)) = 5"
  by (simp add: actorLoop.simps awake_def iteration_def counter_def createSuperVisor_def
        send_def offer_def rejectZero_def numeral_3_eq_3 ended_def getState_def)

text \<open>
  C2, as amended. \<open>Effect.retry\<close> with \<open>times: n\<close> runs the effect at least once and at most
  \<open>n + 1\<close> times (the first run and up to \<open>n\<close> retries; four runs for the loop's
  \<open>times: 3\<close>). Every run before the last one failed, so it stops at the first run that
  does not fail, and its result is the result of its last run: the last failure when all
  \<open>n + 1\<close> runs failed. The traced runs leave the result and the world as they are
  without the trace.
\<close>

theorem retry_runs:
  assumes "retry n (traced self) ([], w) = (r, tr, w')"
  shows "retry n self w = (r, w') \<and> tr \<noteq> [] \<and> length tr \<le> n + 1
       \<and> list_all failed (butlast tr) \<and> last tr = r \<and> (failed r \<longrightarrow> length tr = n + 1)"
  using retry_traced_gen [OF assms] by auto

theorem retry_runs_witness:
  "retry 3 (traced (run (rejectZero 0 0))) ([], ()) =
     (Inl (Fail ''rejected''), replicate 4 (Inl (Fail ''rejected'')), ())
   \<and> retry 3 (run (rejectZero 0 0)) () = (Inl (Fail ''rejected''), ())"
proof -
  have h: "retry 3 (traced (run (rejectZero 0 0))) ([], ()) =
     (Inl (Fail ''rejected''), replicate 4 (Inl (Fail ''rejected'')), ())"
    by (simp add: numeral_3_eq_3 traced_def rejectZero_def numeral_eq_Suc)
  show ?thesis
    using retry_runs [OF h] h by simp
qed

text \<open>
  C2 as stated fails: with the loop's \<open>times: 3\<close>, an effect that always fails is run four
  times, not three.
\<close>

theorem retry_three_attempts_counterexample:
  "length (fst (snd (retry 3 (traced (run (rejectZero 0 0))) ([], ())))) = 4"
  by (simp add: numeral_3_eq_3 traced_def rejectZero_def)

text \<open>
  C3, as amended. Once the loop has taken a \<open>Stop\<close> envelope its fiber is done, and every
  later \<open>send\<close>, \<open>stop\<close> or \<open>restart\<close> still answers \<open>true\<close>: the envelope is appended to the
  queue, where it stays, since the loop takes nothing any more and the state keeps the
  value it had.
\<close>

theorem offer_after_stop_is_accepted:
  assumes "fiberRef a = Running" and "queue a = Stop # rest"
  shows "fiberRef (iteration name init handler a) = Done
       \<and> fst (send message (schedule name init handler cs (iteration name init handler a)))
       \<and> fst (stop (schedule name init handler cs (iteration name init handler a)))
       \<and> fst (restart (schedule name init handler cs (iteration name init handler a)))
       \<and> queue (snd (offer msg (schedule name init handler cs (iteration name init handler a)))) =
           rest @ offered cs @ [msg]
       \<and> getState (snd (offer msg (schedule name init handler cs (iteration name init handler a)))) =
           getState a
       \<and> actorLoop name init handler
           (snd (offer msg (schedule name init handler cs (iteration name init handler a)))) =
           snd (offer msg (schedule name init handler cs (iteration name init handler a)))"
proof -
  let ?b = "iteration name init handler a"
  have b: "?b = a\<lparr>queue := rest, console := console a @ [ShuttingDown name], fiberRef := Done\<rparr>"
    using assms by (rule iteration_stop)
  then have e: "ended ?b"
    by (simp add: ended_def)
  have s: "schedule name init handler cs ?b = ?b\<lparr>queue := queue ?b @ offered cs\<rparr>"
    using e by (rule schedule_ended)
  have q: "snd (offer msg (schedule name init handler cs ?b)) =
           a\<lparr>queue := rest @ offered cs @ [msg], console := console a @ [ShuttingDown name],
              fiberRef := Done\<rparr>"
    by (simp add: s offer_def) (simp add: b)
  have "ended (snd (offer msg (schedule name init handler cs ?b)))"
    unfolding q by (simp add: ended_def)
  then have l: "actorLoop name init handler (snd (offer msg (schedule name init handler cs ?b))) =
                snd (offer msg (schedule name init handler cs ?b))"
    by (rule actorLoop_ended)
  note l' = l [unfolded q]
  show ?thesis
    unfolding q using l' by (simp add: b getState_def send_def stop_def restart_def offer_def)
qed

theorem offer_after_stop_is_accepted_witness:
  "fiberRef (snd (stop counter)) = Running \<and> queue (snd (stop counter)) = [Stop]
   \<and> fst (send 7 (schedule ''counter'' 0 rejectZero [Turn] (snd (stop counter))))
   \<and> queue (snd (offer (Message 7) (schedule ''counter'' 0 rejectZero [Turn] (snd (stop counter))))) = [Message 7]"
proof -
  have h1: "fiberRef (snd (stop counter)) = Running" and h2: "queue (snd (stop counter)) = Stop # []"
    by (simp_all add: stop_def offer_def counter_def createSuperVisor_def)
  show ?thesis
    using offer_after_stop_is_accepted [OF h1 h2, of "''counter''" 0 rejectZero 7 "[]" "Message 7"] h1 h2
    by simp
qed

text \<open>
  C3 as stated fails: a \<open>send\<close> to an actor whose loop has processed \<open>Stop\<close> answers \<open>true\<close>
  and queues the envelope.
\<close>

theorem send_after_stop_rejected_counterexample:
  "send 7 (actorLoop ''counter'' 0 rejectZero (snd (stop counter))) =
     (True, \<lparr>queue = [Message 7], stateRef = 0, fiberRef = Done,
             console = [Started ''counter'', ShuttingDown ''counter''], world = ()\<rparr>)"
  by (simp add: actorLoop.simps awake_def iteration_def counter_def createSuperVisor_def
        send_def stop_def offer_def)

text \<open>
  C4, as amended. For a freshly created actor and every schedule of \<open>send\<close> calls and loop
  turns, once the loop has run as far as it can the state is the left fold of the handler
  over the payloads that precede the first one that does not succeed; that payload and
  all later ones are not applied. If the loop is still running at the end, no payload has
  failed and the state is the left fold over all payloads, as the specification has it.
\<close>

theorem final_state_is_applied_prefix:
  assumes "StopCall \<notin> set cs" and "RestartCall \<notin> set cs"
  shows "getState (actorLoop name init handler
                    (schedule name init handler cs (createSuperVisor name init handler w))) =
         fst (appliedPrefix handler init (payloads cs) w)
       \<and> (fiberRef (actorLoop name init handler
                    (schedule name init handler cs (createSuperVisor name init handler w))) = Running
          \<longrightarrow> getState (actorLoop name init handler
                    (schedule name init handler cs (createSuperVisor name init handler w))) =
               fst (leftFold handler init (payloads cs) w))"
proof -
  let ?a = "createSuperVisor name init handler w"
  let ?b = "?a\<lparr>queue := queue ?a @ offered cs\<rparr>"
  have loop: "actorLoop name init handler (schedule name init handler cs ?a) =
              actorLoop name init handler ?b"
    by (rule actorLoop_schedule)
  have "fiberRef ?b = Running" and "queue ?b = map Message (payloads cs)"
    using assms by (simp_all add: createSuperVisor_def offered_sends)
  note b = this
  have init: "stateRef ?b = init" and w: "world ?b = w"
    by (simp_all add: createSuperVisor_def)
  have "stateRef (actorLoop name init handler ?b) = fst (appliedPrefix handler init (payloads cs) w)"
    using actorLoop_messages [OF b, of name init handler] by (simp only: init w)
  moreover have "fiberRef (actorLoop name init handler ?b) = Running \<longrightarrow>
      stateRef (actorLoop name init handler ?b) = fst (leftFold handler init (payloads cs) w)"
    using actorLoop_messages_survived [OF b, of name init handler] by (simp only: init w) blast
  ultimately show ?thesis
    by (simp only: loop getState_def)
qed

theorem final_state_is_applied_prefix_witness:
  "StopCall \<notin> set [Send 3, Turn, Send 0, Send (5::int)]
   \<and> RestartCall \<notin> set [Send 3, Turn, Send 0, Send (5::int)]
   \<and> getState (actorLoop ''counter'' 0 rejectZero
         (schedule ''counter'' 0 rejectZero [Send 3, Turn, Send 0, Send 5]
            (createSuperVisor ''counter'' 0 rejectZero ()))) = 3
   \<and> fiberRef (actorLoop ''counter'' 0 rejectZero
         (schedule ''counter'' 0 rejectZero [Send 3, Turn, Send 4]
            (createSuperVisor ''counter'' 0 rejectZero ()))) = Running
   \<and> getState (actorLoop ''counter'' 0 rejectZero
         (schedule ''counter'' 0 rejectZero [Send 3, Turn, Send 4]
            (createSuperVisor ''counter'' 0 rejectZero ()))) = 7
   \<and> fst (leftFold rejectZero 0 [3, 4] ()) = 7"
proof -
  have h1: "StopCall \<notin> set [Send 3, Turn, Send 0, Send (5::int)]"
    and h2: "RestartCall \<notin> set [Send 3, Turn, Send 0, Send (5::int)]"
    and h3: "StopCall \<notin> set [Send 3, Turn, Send (4::int)]"
    and h4: "RestartCall \<notin> set [Send 3, Turn, Send (4::int)]"
    by simp_all
  have run1: "actorLoop ''counter'' 0 rejectZero
         (schedule ''counter'' 0 rejectZero [Send 3, Turn, Send 0, Send 5]
            (createSuperVisor ''counter'' 0 rejectZero ())) =
       \<lparr>queue = [Message 5], stateRef = 3, fiberRef = Failed (Fail ''rejected''),
        console = [Started ''counter'', Received, Received], world = ()\<rparr>"
    by (simp add: actorLoop.simps awake_def iteration_def createSuperVisor_def
          send_def offer_def rejectZero_def numeral_3_eq_3)
  have run2: "actorLoop ''counter'' 0 rejectZero
         (schedule ''counter'' 0 rejectZero [Send 3, Turn, Send 4]
            (createSuperVisor ''counter'' 0 rejectZero ())) =
       \<lparr>queue = [], stateRef = 7, fiberRef = Running,
        console = [Started ''counter'', Received, Received], world = ()\<rparr>"
    by (simp add: actorLoop.simps awake_def iteration_def createSuperVisor_def
          send_def offer_def rejectZero_def numeral_3_eq_3)
  have fold: "fst (leftFold rejectZero 0 [3, 4] ()) = 7"
    by (simp add: rejectZero_def numeral_3_eq_3)
  show ?thesis
    using final_state_is_applied_prefix [OF h1 h2, of "''counter''" 0 rejectZero "()"]
      final_state_is_applied_prefix [OF h3 h4, of "''counter''" 0 rejectZero "()"]
    unfolding run1 run2 by (simp add: getState_def fold)
qed

text \<open>
  C4 as stated fails: \<open>rejectZero\<close> succeeds on the payload \<open>5\<close> in every state, so the fold
  of the specification over the payloads \<open>0, 5\<close> is \<open>5\<close>, but the loop has ended at the
  payload \<open>0\<close> and the state is \<open>0\<close>.
\<close>

theorem final_state_left_fold_counterexample:
  "getState (actorLoop ''counter'' 0 rejectZero (schedule ''counter'' 0 rejectZero [Send 0, Send 5] counter)) = 0
   \<and> fst (leftFold rejectZero 0 [0, 5] ()) = 5"
  by (simp add: actorLoop.simps awake_def iteration_def counter_def createSuperVisor_def
        send_def offer_def rejectZero_def numeral_3_eq_3 getState_def)

text \<open>
  C5. Whatever calls and loop turns came before, when the loop is running and a \<open>Restart\<close>
  envelope is at the head of the queue, the next pass of the loop sets the state to the
  \<open>initalState\<close> given to \<open>createSuperVisor\<close>, and the loop is still running.
\<close>

theorem restart_resets_to_initial_state:
  assumes "fiberRef (schedule name init handler cs (createSuperVisor name init handler w)) = Running"
    and "queue (schedule name init handler cs (createSuperVisor name init handler w)) =
         Restart # rest"
  shows "getState (schedule name init handler (cs @ [Turn]) (createSuperVisor name init handler w)) =
           init
       \<and> fiberRef (schedule name init handler (cs @ [Turn]) (createSuperVisor name init handler w)) =
           Running
       \<and> queue (schedule name init handler (cs @ [Turn]) (createSuperVisor name init handler w)) =
           rest"
  using iteration_restart [OF assms, of name init handler] assms(1)
  by (simp add: getState_def schedule_append)

theorem restart_resets_to_initial_state_witness:
  "getState (schedule ''counter'' 0 rejectZero [Send 5, Turn, Send 2, RestartCall, Turn]
      (createSuperVisor ''counter'' 0 rejectZero ())) = 7
   \<and> queue (schedule ''counter'' 0 rejectZero [Send 5, Turn, Send 2, RestartCall, Turn]
      (createSuperVisor ''counter'' 0 rejectZero ())) = [Restart]
   \<and> fiberRef (schedule ''counter'' 0 rejectZero [Send 5, Turn, Send 2, RestartCall, Turn]
      (createSuperVisor ''counter'' 0 rejectZero ())) = Running
   \<and> getState (schedule ''counter'' 0 rejectZero [Send 5, Turn, Send 2, RestartCall, Turn, Turn]
      (createSuperVisor ''counter'' 0 rejectZero ())) = 0
   \<and> fiberRef (schedule ''counter'' 0 rejectZero [Send 5, Turn, Send 2, RestartCall, Turn, Turn]
      (createSuperVisor ''counter'' 0 rejectZero ())) = Running"
proof -
  let ?a = "schedule ''counter'' 0 rejectZero [Send 5, Turn, Send 2, RestartCall, Turn]
              (createSuperVisor ''counter'' 0 rejectZero ())"
  have a: "?a = \<lparr>queue = [Restart], stateRef = 7, fiberRef = Running,
                  console = [Started ''counter'', Received, Received], world = ()\<rparr>"
    by (simp add: createSuperVisor_def send_def restart_def offer_def iteration_def
          rejectZero_def numeral_3_eq_3)
  have h1: "fiberRef ?a = Running" and h2: "queue ?a = Restart # []"
    unfolding a by simp_all
  show ?thesis
    using restart_resets_to_initial_state [OF h1 h2]
    by (simp add: getState_def createSuperVisor_def send_def restart_def offer_def
          iteration_def rejectZero_def numeral_3_eq_3)
qed

text \<open>
  C6, as amended. Let the queue hold the envelopes \<open>pre\<close>, then \<open>Stop\<close>, then \<open>post\<close>, and let
  the loop get through \<open>pre\<close>: it is still running after them, none of them has ended it.
  Then \<open>Stop\<close> is not taken before its turn: the loop ends at the \<open>Stop\<close> with the state
  that the envelopes of \<open>pre\<close> produce, all of them applied first, and leaves \<open>post\<close> in the
  queue. After that no schedule of calls and loop turns changes what \<open>getState\<close> returns.
\<close>

theorem stop_in_turn_then_frozen:
  assumes "queue a = pre @ Stop # post"
    and "fiberRef (actorLoop name init handler (a\<lparr>queue := pre\<rparr>)) = Running"
  shows "fiberRef (actorLoop name init handler a) = Done
       \<and> getState (actorLoop name init handler a) =
           getState (actorLoop name init handler (a\<lparr>queue := pre\<rparr>))
       \<and> queue (actorLoop name init handler a) = post
       \<and> getState (schedule name init handler cs (actorLoop name init handler a)) =
           getState (actorLoop name init handler a)
       \<and> getState (actorLoop name init handler
                     (schedule name init handler cs (actorLoop name init handler a))) =
           getState (actorLoop name init handler a)"
proof -
  let ?L = "actorLoop name init handler"
  let ?b = "?L (a\<lparr>queue := pre\<rparr>)"
  let ?c = "?b\<lparr>queue := Stop # post\<rparr>"
  let ?d = "?b\<lparr>queue := post, console := console ?b @ [ShuttingDown name], fiberRef := Done\<rparr>"
  have "\<not> awake ?b"
    by (rule actorLoop_asleep)
  then have empty: "queue ?b = []"
    using assms(2) by (rule asleep_running_empty)
  have "a = (a\<lparr>queue := pre\<rparr>)\<lparr>queue := queue (a\<lparr>queue := pre\<rparr>) @ Stop # post\<rparr>"
    using assms(1) by simp
  then have "?L a = ?L ((a\<lparr>queue := pre\<rparr>)\<lparr>queue := queue (a\<lparr>queue := pre\<rparr>) @ Stop # post\<rparr>)"
    by simp
  also have "\<dots> = ?L (?b\<lparr>queue := queue ?b @ Stop # post\<rparr>)"
    by (rule actorLoop_append)
  also have "\<dots> = ?L ?c"
    by (simp add: empty)
  also have "\<dots> = ?L (iteration name init handler ?c)"
    using assms(2) by (intro actorLoop_awake) (simp add: awake_def)
  also have "iteration name init handler ?c = ?d"
    using assms(2) by (simp add: iteration_def)
  also have "?L ?d = ?d"
    by (rule actorLoop_ended) (simp add: ended_def)
  finally have final: "?L a = ?d" .
  have e: "ended ?d"
    by (simp add: ended_def)
  have s: "schedule name init handler cs ?d = ?d\<lparr>queue := queue ?d @ offered cs\<rparr>"
    using e by (rule schedule_ended)
  have "ended (?d\<lparr>queue := queue ?d @ offered cs\<rparr>)"
    by (simp add: ended_def)
  then have l: "?L (?d\<lparr>queue := queue ?d @ offered cs\<rparr>) = ?d\<lparr>queue := queue ?d @ offered cs\<rparr>"
    by (rule actorLoop_ended)
  show ?thesis
    by (simp only: final s l) (simp add: getState_def)
qed

theorem stop_in_turn_then_frozen_witness:
  "queue (schedule ''counter'' 0 rejectZero [Send 3, Send 4, StopCall, Send 5] counter) =
     [Message 3, Message 4] @ Stop # [Message 5]
   \<and> fiberRef (actorLoop ''counter'' 0 rejectZero
        ((schedule ''counter'' 0 rejectZero [Send 3, Send 4, StopCall, Send 5] counter)
           \<lparr>queue := [Message 3, Message 4]\<rparr>)) = Running
   \<and> getState (actorLoop ''counter'' 0 rejectZero
        (schedule ''counter'' 0 rejectZero [Send 3, Send 4, StopCall, Send 5] counter)) = 7
   \<and> getState (schedule ''counter'' 0 rejectZero [Send 6, Turn, RestartCall, Turn]
        (actorLoop ''counter'' 0 rejectZero
          (schedule ''counter'' 0 rejectZero [Send 3, Send 4, StopCall, Send 5] counter))) = 7"
proof -
  let ?a = "schedule ''counter'' 0 rejectZero [Send 3, Send 4, StopCall, Send 5] counter"
  have h1: "queue ?a = [Message 3, Message 4] @ Stop # [Message 5]"
    by (simp add: counter_def createSuperVisor_def send_def stop_def offer_def)
  have pre: "actorLoop ''counter'' 0 rejectZero (?a\<lparr>queue := [Message 3, Message 4]\<rparr>) =
        \<lparr>queue = [], stateRef = 7, fiberRef = Running,
         console = [Started ''counter'', Received, Received], world = ()\<rparr>"
    by (simp add: actorLoop.simps awake_def iteration_def counter_def createSuperVisor_def
          send_def stop_def offer_def rejectZero_def numeral_3_eq_3)
  have h2: "fiberRef (actorLoop ''counter'' 0 rejectZero (?a\<lparr>queue := [Message 3, Message 4]\<rparr>)) = Running"
    by (simp only: pre) simp
  show ?thesis
    using stop_in_turn_then_frozen [OF h1 h2, of "[Send 6, Turn, RestartCall, Turn]"] h1 h2
    by (simp only: pre) (simp add: getState_def)
qed

text \<open>
  C6 as stated fails: with the envelopes \<open>0\<close>, \<open>5\<close> and \<open>Stop\<close> in the queue, the message \<open>0\<close>
  ends the loop of \<open>rejectZero\<close>, so the message \<open>5\<close>, enqueued before the \<open>Stop\<close>, is never
  applied (alone before the \<open>Stop\<close> it gives the state \<open>5\<close>) and the \<open>Stop\<close> is never
  taken: both stay in the queue and the state is \<open>0\<close>.
\<close>

theorem stop_before_failure_counterexample:
  "ended (actorLoop ''counter'' 0 rejectZero
            (schedule ''counter'' 0 rejectZero [Send 0, Send 5, StopCall] counter))
   \<and> queue (actorLoop ''counter'' 0 rejectZero
            (schedule ''counter'' 0 rejectZero [Send 0, Send 5, StopCall] counter)) =
       [Message 5, Stop]
   \<and> getState (actorLoop ''counter'' 0 rejectZero
            (schedule ''counter'' 0 rejectZero [Send 0, Send 5, StopCall] counter)) = 0
   \<and> getState (actorLoop ''counter'' 0 rejectZero
            (schedule ''counter'' 0 rejectZero [Send 5, StopCall] counter)) = 5"
  by (simp add: actorLoop.simps awake_def iteration_def counter_def createSuperVisor_def
        send_def stop_def offer_def rejectZero_def numeral_3_eq_3 ended_def getState_def)

text \<open>
  C7. The actor created with balance 1000 and the bank account handler, for every clock:
  after \<open>deposit 500\<close> the balance is 1500; after \<open>withdraw 200\<close> it is 1300; \<open>withdraw 5000\<close>
  leaves the whole state as it was, the loop is still running, the console has no error
  line and the effect was run once, with a success; after \<open>stop\<close> the fiber is done, and
  whatever is sent or called afterwards the balance read by \<open>getState\<close> is 1300.
\<close>

theorem bank_scenario:
  "balance (getState (aliceRuns dateNow w [Send (Deposit (Finite 500)), Turn])) = Finite 1500
   \<and> balance (getState (aliceRuns dateNow w
        [Send (Deposit (Finite 500)), Turn, Send (Withdraw (Finite 200)), Turn])) = Finite 1300
   \<and> getState (aliceRuns dateNow w
        [Send (Deposit (Finite 500)), Turn, Send (Withdraw (Finite 200)), Turn,
         Send (Withdraw (Finite 5000)), Turn]) =
      getState (aliceRuns dateNow w
        [Send (Deposit (Finite 500)), Turn, Send (Withdraw (Finite 200)), Turn])
   \<and> fiberRef (aliceRuns dateNow w
        [Send (Deposit (Finite 500)), Turn, Send (Withdraw (Finite 200)), Turn,
         Send (Withdraw (Finite 5000)), Turn]) = Running
   \<and> console (aliceRuns dateNow w
        [Send (Deposit (Finite 500)), Turn, Send (Withdraw (Finite 200)), Turn,
         Send (Withdraw (Finite 5000)), Turn]) =
      [Started ''Alice'', Received, Received, Received]
   \<and> fst (snd (retry 3 (traced (run (bankAccountHandler dateNow
        (getState (aliceRuns dateNow w
           [Send (Deposit (Finite 500)), Turn, Send (Withdraw (Finite 200)), Turn]))
        (Withdraw (Finite 5000))))) ([], w2))) =
      [Inr (getState (aliceRuns dateNow w
           [Send (Deposit (Finite 500)), Turn, Send (Withdraw (Finite 200)), Turn]))]
   \<and> fiberRef (aliceRuns dateNow w
        [Send (Deposit (Finite 500)), Turn, Send (Withdraw (Finite 200)), Turn,
         Send (Withdraw (Finite 5000)), Turn, StopCall, Turn]) = Done
   \<and> balance (getState (aliceRuns dateNow w
        ([Send (Deposit (Finite 500)), Turn, Send (Withdraw (Finite 200)), Turn,
          Send (Withdraw (Finite 5000)), Turn, StopCall, Turn] @ Send message # cs))) =
      Finite 1300"
proof -
  let ?A = "aliceRuns dateNow w"
  let ?w1 = "snd (dateNow w)"
  let ?w2 = "snd (dateNow ?w1)"
  let ?w3 = "snd (dateNow ?w2)"
  let ?t1 = "\<lparr>type = ''deposit'', amount = Finite 500, timestamp = fst (dateNow w)\<rparr>"
  let ?t2 = "\<lparr>type = ''withdraw'', amount = Finite 200, timestamp = fst (dateNow ?w1)\<rparr>"
  let ?s2 = "\<lparr>balance = Finite 1300, transactions = [?t1, ?t2]\<rparr>"
  have a1: "addNum (Finite 1000) (Finite 500) = Finite 1500"
    using addNum_whole [of 1000 500] by simp
  have a2: "subNum (Finite 1500) (Finite 200) = Finite 1300"
    using subNum_whole [of 1500 200] by simp
  note defs = aliceRuns_def alice_def createSuperVisor_def send_def stop_def offer_def
    iteration_def bankAccountHandler_def numeral_3_eq_3 prod.case_eq_if a1 a2
  have s1: "?A [Send (Deposit (Finite 500)), Turn] =
      \<lparr>queue = [], stateRef = \<lparr>balance = Finite 1500, transactions = [?t1]\<rparr>,
       fiberRef = Running, console = [Started ''Alice'', Received], world = ?w1\<rparr>"
    by (simp add: defs del: addNum.simps)
  have s2: "?A [Send (Deposit (Finite 500)), Turn, Send (Withdraw (Finite 200)), Turn] =
      \<lparr>queue = [], stateRef = ?s2, fiberRef = Running,
       console = [Started ''Alice'', Received, Received], world = ?w2\<rparr>"
    by (simp add: defs del: addNum.simps)
  have s3: "?A [Send (Deposit (Finite 500)), Turn, Send (Withdraw (Finite 200)), Turn,
               Send (Withdraw (Finite 5000)), Turn] =
      \<lparr>queue = [], stateRef = ?s2, fiberRef = Running,
       console = [Started ''Alice'', Received, Received, Received], world = ?w3\<rparr>"
    by (simp add: defs del: addNum.simps)
  have s4: "?A [Send (Deposit (Finite 500)), Turn, Send (Withdraw (Finite 200)), Turn,
               Send (Withdraw (Finite 5000)), Turn, StopCall, Turn] =
      \<lparr>queue = [], stateRef = ?s2, fiberRef = Done,
       console = [Started ''Alice'', Received, Received, Received, ShuttingDown ''Alice''],
       world = ?w3\<rparr>"
    by (simp add: defs del: addNum.simps)
  let ?pre = "[Send (Deposit (Finite 500)), Turn, Send (Withdraw (Finite 200)), Turn,
               Send (Withdraw (Finite 5000)), Turn, StopCall, Turn]"
  have e4: "ended (?A ?pre)"
    by (simp only: s4) (simp add: ended_def)
  have "?A (?pre @ Send message # cs) =
        schedule ''Alice'' \<lparr>balance = Finite 1000, transactions = []\<rparr>
          (bankAccountHandler dateNow) (Send message # cs) (?A ?pre)"
    by (simp only: aliceRuns_def schedule_append)
  also have "\<dots> = (?A ?pre)\<lparr>queue := queue (?A ?pre) @ offered (Send message # cs)\<rparr>"
    using e4 by (rule schedule_ended)
  finally have "stateRef (?A (?pre @ Send message # cs)) = stateRef (?A ?pre)"
    by simp
  then have s5: "stateRef (?A (?pre @ Send message # cs)) = ?s2"
    by (simp only: s4) simp
  have run4: "run (bankAccountHandler dateNow ?s2 (Withdraw (Finite 5000))) w2 =
              (Inr ?s2, snd (dateNow w2))"
    by (simp add: bank_run_withdraw)
  have r: "fst (snd (retry 3 (traced (run (bankAccountHandler dateNow ?s2
              (Withdraw (Finite 5000))))) ([], w2))) = [Inr ?s2]"
    using retry_traced_first_success [where w = w2 and n = 3 and tr = "[]"
        and self = "run (bankAccountHandler dateNow ?s2 (Withdraw (Finite 5000)))",
        OF run4]
    by simp
  show ?thesis
    by (simp only: s1 s2 s3 s4 s5 getState_def) (simp add: r)
qed

text \<open>
  C8. For every state, message, clock and world the bank account handler returns an
  effect that succeeds; \<open>Effect.retry\<close> runs it exactly once; and the loop, taking that
  message, writes the successor state to the cell and is still running.
\<close>

theorem bank_handler_never_fails:
  "\<exists>s'. bankAccountHandler dateNow state message =
           Returns (run (bankAccountHandler dateNow state message))
      \<and> run (bankAccountHandler dateNow state message) w = (Inr s', snd (dateNow w))
      \<and> retry 3 (traced (run (bankAccountHandler dateNow state message))) ([], w) =
          (Inr s', [Inr s'], snd (dateNow w))
      \<and> iteration name init (bankAccountHandler dateNow)
          (a\<lparr>fiberRef := Running, queue := Message message # rest, stateRef := state, world := w\<rparr>) =
          a\<lparr>fiberRef := Running, queue := rest, stateRef := s', world := snd (dateNow w),
            console := console a @ [Received]\<rparr>"
proof -
  let ?eff = "run (bankAccountHandler dateNow state message)"
  obtain s' where run: "?eff w = (Inr s', snd (dateNow w))"
    using bank_run_succeeds [of dateNow state message w] by blast
  have r: "retry 3 ?eff w = (Inr s', snd (dateNow w))"
    using run by (rule retry_first_success)
  have t: "retry 3 (traced ?eff) ([], w) = (Inr s', [] @ [Inr s'], snd (dateNow w))"
    using run by (rule retry_traced_first_success)
  let ?a = "a\<lparr>fiberRef := Running, queue := Message message # rest, stateRef := state, world := w\<rparr>"
  have "iteration name init (bankAccountHandler dateNow) ?a =
        ?a\<lparr>queue := rest, console := console ?a @ [Received], world := snd (dateNow w),
           stateRef := s'\<rparr>"
    by (rule iteration_succeeded [where m = message and eff = ?eff])
       (simp_all add: bank_returns [symmetric] r)
  then show ?thesis
    using run t bank_returns by (intro exI [of _ s']) simp
qed

text \<open>
  C9, as amended. Let the ledger hold of a state: the balance and the recorded amounts are
  finite and the balance is the initial balance plus the recorded deposits minus the
  recorded withdrawals and transfers. If the handler's arithmetic is exact on the message
  (as it is on whole numbers of magnitude up to \<open>2^53\<close>), the ledger holds again after the
  handler. A deposit appends one \<open>deposit\<close> record and adds its amount; a withdrawal or
  transfer whose amount exceeds the balance returns the state as it was; any other
  withdrawal or transfer appends one record of its type and subtracts its amount.
\<close>

theorem ledger_preserved:
  assumes "ledgerHolds initial state"
    and "exactOn state message"
    and "run (bankAccountHandler dateNow state message) w = (r, w')"
  shows "\<exists>s'. r = Inr s' \<and> ledgerHolds initial s' \<and>
     (case message of
        Deposit x \<Rightarrow>
          s' = \<lparr>balance = addNum (balance state) x,
                transactions = transactions state @
                  [\<lparr>type = ''deposit'', amount = x, timestamp = fst (dateNow w)\<rparr>]\<rparr>
          \<and> quantity (balance s') = quantity (balance state) + quantity x
      | Withdraw x \<Rightarrow>
          (if ltNum (balance state) x then s' = state
           else s' = \<lparr>balance = subNum (balance state) x,
                      transactions = transactions state @
                        [\<lparr>type = ''withdraw'', amount = x, timestamp = fst (dateNow w)\<rparr>]\<rparr>
                \<and> quantity (balance s') = quantity (balance state) - quantity x)
      | Transfer to x \<Rightarrow>
          (if ltNum (balance state) x then s' = state
           else s' = \<lparr>balance = subNum (balance state) x,
                      transactions = transactions state @
                        [\<lparr>type = ''transfer'', amount = x, timestamp = fst (dateNow w)\<rparr>]\<rparr>
                \<and> quantity (balance s') = quantity (balance state) - quantity x))"
proof (cases message)
  case (Deposit x)
  then show ?thesis
    using assms by (auto simp: bank_run_deposit ledger_deposit ledgerHolds_def)
next
  case (Withdraw x)
  then show ?thesis
    using assms by (auto simp: bank_run_withdraw ledger_withdraw ledgerHolds_def split: if_splits)
next
  case (Transfer to x)
  then show ?thesis
    using assms by (auto simp: bank_run_transfer ledger_transfer ledgerHolds_def split: if_splits)
qed

theorem ledger_preserved_witness:
  "ledgerHolds 1000 \<lparr>balance = Finite 1000, transactions = []\<rparr>
   \<and> exactOn \<lparr>balance = Finite 1000, transactions = []\<rparr> (Withdraw (Finite 200))
   \<and> run (bankAccountHandler tick \<lparr>balance = Finite 1000, transactions = []\<rparr>
           (Withdraw (Finite 200))) 5 =
      (Inr \<lparr>balance = Finite 800,
            transactions = [\<lparr>type = ''withdraw'', amount = Finite 200, timestamp = 5\<rparr>]\<rparr>, 6)
   \<and> ledgerHolds 1000
        \<lparr>balance = Finite 800,
         transactions = [\<lparr>type = ''withdraw'', amount = Finite 200, timestamp = 5\<rparr>]\<rparr>"
proof -
  have d: "subNum (Finite 1000) (Finite 200) = Finite 800"
    using subNum_whole [of 1000 200] by simp
  have h1: "ledgerHolds 1000 \<lparr>balance = Finite 1000, transactions = []\<rparr>"
    by (simp add: ledgerHolds_def ledger_def recorded_def)
  have h2: "exactOn \<lparr>balance = Finite 1000, transactions = []\<rparr> (Withdraw (Finite 200))"
    by (simp add: d)
  have h3: "run (bankAccountHandler tick \<lparr>balance = Finite 1000, transactions = []\<rparr>
           (Withdraw (Finite 200))) 5 =
      (Inr \<lparr>balance = Finite 800,
            transactions = [\<lparr>type = ''withdraw'', amount = Finite 200, timestamp = 5\<rparr>]\<rparr>, 6)"
    by (simp add: bank_run_withdraw d tick_def)
  show ?thesis
    using ledger_preserved [OF h1 h2 h3] h1 h2 h3 by (simp add: d tick_def)
qed

text \<open>
  C9 as stated fails: on the balance \<open>2^53\<close> a deposit of \<open>1\<close> appends its record, but the
  double sum \<open>2^53 + 1\<close> rounds to \<open>2^53\<close>. The ledger held before and does not hold after.
\<close>

theorem ledger_rounding_counterexample:
  "ledgerHolds 9007199254740992 \<lparr>balance = Finite 9007199254740992, transactions = []\<rparr>
   \<and> run (bankAccountHandler tick \<lparr>balance = Finite 9007199254740992, transactions = []\<rparr>
           (Deposit (Finite 1))) 5 =
      (Inr \<lparr>balance = Finite 9007199254740992,
            transactions = [\<lparr>type = ''deposit'', amount = Finite 1, timestamp = 5\<rparr>]\<rparr>, 6)
   \<and> \<not> ledgerHolds 9007199254740992
        \<lparr>balance = Finite 9007199254740992,
         transactions = [\<lparr>type = ''deposit'', amount = Finite 1, timestamp = 5\<rparr>]\<rparr>"
  by (simp add: bank_run_deposit tick_def roundDouble_tie ledgerHolds_def ledger_def recorded_def)

text \<open>
  C10, as amended. The handler does not look at the sign of an amount. A deposit of a
  negative amount succeeds, appends its record and sets the balance to the double sum
  \<open>balance + amount\<close>, which is below zero when the sum is exact and the balance is less
  than the amount's magnitude. On a non-negative balance a withdrawal of a negative
  amount passes the guard, appends its record and sets the balance to the double
  difference \<open>balance - amount\<close>; when that difference is exact the balance has grown by
  the amount's magnitude.
\<close>

theorem negative_amounts_accepted:
  assumes "ltNum x (Finite 0)"
  shows "run (bankAccountHandler dateNow state (Deposit x)) w =
           (Inr \<lparr>balance = addNum (balance state) x,
                 transactions = transactions state @
                   [\<lparr>type = ''deposit'', amount = x, timestamp = fst (dateNow w)\<rparr>]\<rparr>,
            snd (dateNow w))
       \<and> (exactOn state (Deposit x) \<and> quantity (balance state) < \<bar>quantity x\<bar>
          \<longrightarrow> ltNum (addNum (balance state) x) (Finite 0))
       \<and> (nonNegative (balance state) \<longrightarrow>
            run (bankAccountHandler dateNow state (Withdraw x)) w =
              (Inr \<lparr>balance = subNum (balance state) x,
                    transactions = transactions state @
                      [\<lparr>type = ''withdraw'', amount = x, timestamp = fst (dateNow w)\<rparr>]\<rparr>,
               snd (dateNow w)))
       \<and> (nonNegative (balance state) \<and> exactOn state (Withdraw x) \<longrightarrow>
            quantity (subNum (balance state) x) = quantity (balance state) + \<bar>quantity x\<bar>
            \<and> ltNum (balance state) (subNum (balance state) x))"
proof -
  have neg: "isFinite x \<Longrightarrow> quantity x < 0"
    using assms by (cases x) auto
  have lt0: "\<And>y. isFinite y \<Longrightarrow> quantity y < 0 \<Longrightarrow> ltNum y (Finite 0)"
    subgoal for y by (cases y) auto
    done
  have lt: "\<And>a b. isFinite a \<Longrightarrow> isFinite b \<Longrightarrow> quantity a < quantity b \<Longrightarrow> ltNum a b"
    subgoal for a b by (cases a; cases b) auto
    done
  have c2: "exactOn state (Deposit x) \<and> quantity (balance state) < \<bar>quantity x\<bar>
          \<longrightarrow> ltNum (addNum (balance state) x) (Finite 0)"
  proof (intro impI, elim conjE)
    assume e: "exactOn state (Deposit x)"
      and b: "quantity (balance state) < \<bar>quantity x\<bar>"
    from e have fx: "isFinite x" and fs: "isFinite (addNum (balance state) x)"
      and q: "quantity (addNum (balance state) x) = quantity (balance state) + quantity x"
      by simp_all
    have "quantity (addNum (balance state) x) < 0"
      using neg [OF fx] b q by simp
    with fs show "ltNum (addNum (balance state) x) (Finite 0)"
      by (rule lt0)
  qed
  have guard: "nonNegative (balance state) \<Longrightarrow> \<not> ltNum (balance state) x"
    using assms by (rule ltNum_guard [rotated])
  have c4: "nonNegative (balance state) \<and> exactOn state (Withdraw x) \<longrightarrow>
            quantity (subNum (balance state) x) = quantity (balance state) + \<bar>quantity x\<bar>
            \<and> ltNum (balance state) (subNum (balance state) x)"
  proof (intro impI, elim conjE)
    assume n: "nonNegative (balance state)" and e: "exactOn state (Withdraw x)"
    from e guard [OF n] have fx: "isFinite x" and fs: "isFinite (subNum (balance state) x)"
      and q: "quantity (subNum (balance state) x) = quantity (balance state) - quantity x"
      by simp_all
    have fb: "isFinite (balance state)"
      using n fs fx by (cases "balance state"; cases x) (auto simp: subNum_def split: if_splits)
    have q': "quantity (subNum (balance state) x) = quantity (balance state) + \<bar>quantity x\<bar>"
      using neg [OF fx] q by simp
    moreover have "quantity (balance state) < quantity (subNum (balance state) x)"
      using neg [OF fx] q by simp
    then have "ltNum (balance state) (subNum (balance state) x)"
      using fb fs by (intro lt)
    ultimately show "quantity (subNum (balance state) x) = quantity (balance state) + \<bar>quantity x\<bar>
            \<and> ltNum (balance state) (subNum (balance state) x)"
      by blast
  qed
  show ?thesis
    using guard c2 c4 by (simp add: bank_run_deposit bank_run_withdraw)
qed

theorem negative_amounts_accepted_witness:
  "ltNum (Finite (- 50)) (Finite 0)
   \<and> nonNegative (Finite 20)
   \<and> run (bankAccountHandler tick \<lparr>balance = Finite 20, transactions = []\<rparr>
           (Deposit (Finite (- 50)))) 5 =
       (Inr \<lparr>balance = Finite (- 30),
             transactions = [\<lparr>type = ''deposit'', amount = Finite (- 50), timestamp = 5\<rparr>]\<rparr>, 6)
   \<and> run (bankAccountHandler tick \<lparr>balance = Finite 20, transactions = []\<rparr>
           (Withdraw (Finite (- 50)))) 5 =
       (Inr \<lparr>balance = Finite 70,
             transactions = [\<lparr>type = ''withdraw'', amount = Finite (- 50), timestamp = 5\<rparr>]\<rparr>, 6)
   \<and> ltNum (Finite 20) (Finite 70)"
proof -
  have h: "ltNum (Finite (- 50)) (Finite 0)"
    by simp
  have a: "addNum (Finite 20) (Finite (- 50)) = Finite (- 30)"
    using addNum_whole [of 20 "- 50"] by simp
  have d: "subNum (Finite 20) (Finite (- 50)) = Finite 70"
    using subNum_whole [of 20 "- 50"] by simp
  show ?thesis
    using negative_amounts_accepted [OF h, where state = "\<lparr>balance = Finite 20, transactions = []\<rparr>"
        and dateNow = tick and w = 5]
    by (simp add: a d tick_def del: addNum.simps)
qed

text \<open>
  C10 as stated fails: on the balance \<open>2^53\<close> a withdrawal of \<open>-1\<close> passes the guard and
  appends its record, but the double difference \<open>2^53 - (-1)\<close> rounds to \<open>2^53\<close>: the balance
  has not grown.
\<close>

theorem negative_withdrawal_rounding_counterexample:
  "ltNum (Finite (- 1)) (Finite 0)
   \<and> nonNegative (balance \<lparr>balance = Finite 9007199254740992, transactions = []\<rparr>)
   \<and> run (bankAccountHandler tick \<lparr>balance = Finite 9007199254740992, transactions = []\<rparr>
           (Withdraw (Finite (- 1)))) 5 =
       (Inr \<lparr>balance = Finite 9007199254740992,
             transactions = [\<lparr>type = ''withdraw'', amount = Finite (- 1), timestamp = 5\<rparr>]\<rparr>, 6)"
  by (simp add: bank_run_withdraw tick_def subNum_def roundDouble_tie)

end
